theory Spec2Isabelle
  imports Complex_Main "HOL-Library.Sublist" "HOL-Library.Multiset"
begin

section \<open>Python strings\<close>

text \<open>
  A Python \<open>str\<close> is modelled as a \<open>string\<close> whose characters are the code points
  0..255 (Latin-1, which is also how HTTP header values are decoded). The string
  methods the script calls are written out below.
\<close>

definition code :: "char \<Rightarrow> nat" where
  "code c = of_char c"

definition is_space :: "char \<Rightarrow> bool" where
  \<comment> \<open>\<open>str.isspace\<close> on the code points below 256\<close>
  "is_space c = ((9 \<le> code c \<and> code c \<le> 13) \<or> (28 \<le> code c \<and> code c \<le> 32)
                 \<or> code c = 133 \<or> code c = 160)"

definition lstrip_by :: "(char \<Rightarrow> bool) \<Rightarrow> string \<Rightarrow> string" where
  "lstrip_by P s = dropWhile P s"

definition strip_by :: "(char \<Rightarrow> bool) \<Rightarrow> string \<Rightarrow> string" where
  "strip_by P s = rev (dropWhile P (rev (dropWhile P s)))"

definition str_strip :: "string \<Rightarrow> string" where
  \<comment> \<open>\<open>s.strip()\<close>\<close>
  "str_strip s = strip_by is_space s"

definition strip_chars :: "string \<Rightarrow> string \<Rightarrow> string" where
  \<comment> \<open>\<open>s.strip(chars)\<close>\<close>
  "strip_chars chars s = strip_by (\<lambda>c. c \<in> set chars) s"

definition lower_char :: "char \<Rightarrow> char" where
  "lower_char c =
     (if (65 \<le> code c \<and> code c \<le> 90) \<or> (192 \<le> code c \<and> code c \<le> 222 \<and> code c \<noteq> 215)
      then char_of (code c + 32) else c)"

definition str_lower :: "string \<Rightarrow> string" where
  \<comment> \<open>\<open>s.lower()\<close>\<close>
  "str_lower s = map lower_char s"

fun startswith :: "string \<Rightarrow> string \<Rightarrow> bool" where
  \<comment> \<open>\<open>s.startswith(p)\<close>\<close>
  "startswith s [] = True"
| "startswith [] (p # ps) = False"
| "startswith (c # cs) (p # ps) = (c = p \<and> startswith cs ps)"

definition endswith :: "string \<Rightarrow> string \<Rightarrow> bool" where
  \<comment> \<open>\<open>s.endswith(p)\<close>\<close>
  "endswith s p = startswith (rev s) (rev p)"

fun str_find :: "string \<Rightarrow> string \<Rightarrow> nat option" where
  \<comment> \<open>\<open>s.find(sub)\<close>, with \<open>None\<close> for -1\<close>
  "str_find sub [] = (if sub = [] then Some 0 else None)"
| "str_find sub (c # cs) =
     (if startswith (c # cs) sub then Some 0 else map_option Suc (str_find sub cs))"

definition str_contains :: "string \<Rightarrow> string \<Rightarrow> bool" where
  \<comment> \<open>\<open>sub in s\<close>\<close>
  "str_contains sub s = (str_find sub s \<noteq> None)"

function str_split :: "string \<Rightarrow> string \<Rightarrow> string list" where
  \<comment> \<open>\<open>s.split(sep)\<close> for a non-empty separator (Python raises ValueError on an
      empty one; the script only passes the literal \<open>'filename='\<close>)\<close>
  "str_split sep s =
     (if sep = [] then [s]
      else case str_find sep s of
             None \<Rightarrow> [s]
           | Some i \<Rightarrow> take i s # str_split sep (drop (i + length sep) s))"
  by pat_completeness auto
termination
proof (relation "measure (\<lambda>(sep, s). length s)")
  show "wf (measure (\<lambda>(sep, s). length s))" by simp
next
  fix sep s :: string and i :: nat
  assume ne: "sep \<noteq> []" and f: "str_find sep s = Some i"
  have sw: "length p \<le> length t" if "startswith t p" for t p
    using that by (induction t p rule: startswith.induct) auto
  have bound: "j + length sep \<le> length t" if "str_find sep t = Some j" for t j
    using that
  proof (induction t arbitrary: j)
    case Nil
    then show ?case by (simp split: if_splits)
  next
    case (Cons c cs)
    show ?case
    proof (cases "startswith (c # cs) sep")
      case True
      with Cons.prems sw [OF True] show ?thesis by simp
    next
      case False
      with Cons.prems obtain k where "str_find sep cs = Some k" "j = Suc k" by auto
      with Cons.IH [of k] show ?thesis by simp
    qed
  qed
  from ne have "0 < length sep" by simp
  with bound [OF f] have "0 < length s" "0 < i + length sep"
    by linarith+
  then show "((sep, drop (i + length sep) s), (sep, s)) \<in> measure (\<lambda>(sep, s). length s)"
    by simp
qed

declare str_split.simps [simp del]

definition digit_char :: "nat \<Rightarrow> char" where
  "digit_char d = ''0123456789'' ! d"

fun str_nat :: "nat \<Rightarrow> string" where
  "str_nat n = (if n < 10 then [digit_char n] else str_nat (n div 10) @ [digit_char (n mod 10)])"

declare str_nat.simps [simp del]

definition str_int :: "int \<Rightarrow> string" where
  \<comment> \<open>\<open>str(i)\<close> for a Python int\<close>
  "str_int i = (if i < 0 then CHR ''-'' # str_nat (nat (- i)) else str_nat (nat i))"

section \<open>Library functions: \<open>os.path\<close> and \<open>urllib.parse\<close>\<close>

text \<open>
  \<open>os.path.basename\<close> and \<open>os.path.join\<close> as \<open>posixpath\<close> defines them, and the
  path component of \<open>urllib.parse.urlparse\<close> as CPython 3.12 computes it: leading
  control characters and spaces are dropped, tabs and line breaks are removed, then the
  scheme, the network location, the fragment, the query and the parameters of the last
  segment are split off in this order.
\<close>

definition basename :: "string \<Rightarrow> string" where
  \<comment> \<open>\<open>i = p.rfind('/') + 1; return p[i:]\<close>\<close>
  "basename p = rev (takeWhile (\<lambda>c. c \<noteq> CHR ''/'') (rev p))"

definition path_join :: "string \<Rightarrow> string \<Rightarrow> string" where
  \<comment> \<open>\<open>os.path.join(a, b)\<close>\<close>
  "path_join a b =
     (if startswith b ''/'' then b
      else if a = [] \<or> endswith a ''/'' then a @ b
      else a @ ''/'' @ b)"

definition is_ascii_alpha :: "char \<Rightarrow> bool" where
  "is_ascii_alpha c = ((65 \<le> code c \<and> code c \<le> 90) \<or> (97 \<le> code c \<and> code c \<le> 122))"

definition is_scheme_char :: "char \<Rightarrow> bool" where
  "is_scheme_char c =
     (is_ascii_alpha c \<or> (48 \<le> code c \<and> code c \<le> 57) \<or> c \<in> set ''+-.'')"

definition uses_params :: "string list" where
  "uses_params = ['''', ''ftp'', ''hdl'', ''prospero'', ''http'', ''imap'', ''https'',
                  ''shttp'', ''rtsp'', ''rtspu'', ''sip'', ''sips'', ''mms'', ''sftp'', ''tel'']"

definition clean_url :: "string \<Rightarrow> string" where
  \<comment> \<open>\<open>url.lstrip(_WHATWG_C0_CONTROL_OR_SPACE)\<close>, then tab, CR and LF removed\<close>
  "clean_url url =
     filter (\<lambda>c. code c \<notin> {9, 10, 13}) (lstrip_by (\<lambda>c. code c \<le> 32) url)"

definition split_scheme :: "string \<Rightarrow> string \<times> string" where
  \<comment> \<open>the scheme (lower-cased) and the rest of the URL\<close>
  "split_scheme url =
     (let pre = takeWhile (\<lambda>c. c \<noteq> CHR '':'') url
      in if CHR '':'' \<in> set url \<and> pre \<noteq> [] \<and> is_ascii_alpha (hd pre) \<and> list_all is_scheme_char pre
         then (str_lower pre, drop (Suc (length pre)) url)
         else ('''', url))"

definition is_netloc_end :: "char \<Rightarrow> bool" where
  "is_netloc_end c = (c \<in> set ''/?#'')"

definition split_netloc :: "string \<Rightarrow> string \<times> string" where
  \<comment> \<open>the network location after a leading \<open>//\<close> and the rest of the URL\<close>
  "split_netloc url =
     (if take 2 url = ''//''
      then (takeWhile (\<lambda>c. \<not> is_netloc_end c) (drop 2 url),
            dropWhile (\<lambda>c. \<not> is_netloc_end c) (drop 2 url))
      else ('''', url))"

definition splitparams :: "string \<Rightarrow> string" where
  \<comment> \<open>the first component of \<open>_splitparams(url)\<close>, called when \<open>';' in url\<close>\<close>
  "splitparams url =
     (if CHR ''/'' \<in> set url
      then (let i = length url - Suc (length (basename url))
            in if CHR '';'' \<in> set (drop i url)
               then take i url @ takeWhile (\<lambda>c. c \<noteq> CHR '';'') (drop i url)
               else url)
      else takeWhile (\<lambda>c. c \<noteq> CHR '';'') url)"

section \<open>The environment\<close>

text \<open>
  Exceptions are values. Every exception that the calls of the script raise is an
  instance of \<open>Exception\<close>; the two handlers of \<open>download_pdf\<close> tell
  \<open>requests.exceptions.RequestException\<close> from every other class, so a fault carries
  this distinction and the text that \<open>str(e)\<close> gives.
\<close>

datatype fault = RequestException string | OtherException string

text \<open>
  The effects of the script are the external calls it makes, recorded in order.
\<close>

datatype event =
    Mkdir string
  | HttpGet string
  | OpenWrite string
  | WriteChunk string string
  | CloseFile string
  | Print string
  | Sleep real

text \<open>
  What a \<open>requests.Response\<close> offers to the script: the status line, the final URL,
  the header store (keyed by the lower-cased field name, as
  \<open>CaseInsensitiveDict\<close> keeps it), the chunks that \<open>iter_content\<close> yields and the
  exception that ends the stream early, if any.
\<close>

record response =
  status_code :: int
  reason :: string
  resp_url :: string
  headers :: "string \<rightharpoonup> string"
  chunks :: "string list"
  stream_fault :: "fault option"

text \<open>
  The file system, the network, the clock, the standard output and \<open>time.sleep\<close> answer
  each call; an answer may depend on everything that happened before (the events so
  far). \<open>Some msg\<close> is the exception the call raises, with that text: an \<open>OSError\<close> for
  the file system, a \<open>ValueError\<close> for \<open>netloc_error\<close>, whatever \<open>print\<close> raises when the
  line cannot be written (\<open>UnicodeEncodeError\<close>, \<open>BrokenPipeError\<close>), and the
  \<open>OverflowError\<close> of \<open>time.sleep\<close> for a delay too large. None of them is a
  \<open>RequestException\<close>. The validation of the network location by \<open>urlsplit\<close> and the
  decoding of percent escapes by \<open>unquote\<close> are library behaviour taken as given.
\<close>

record env =
  mkdir_result :: "event list \<Rightarrow> string \<Rightarrow> string option"
  get_result :: "event list \<Rightarrow> string \<Rightarrow> fault + response"
  open_result :: "event list \<Rightarrow> string \<Rightarrow> string option"
  write_result :: "event list \<Rightarrow> string \<Rightarrow> string \<Rightarrow> string option"
  close_result :: "event list \<Rightarrow> string \<Rightarrow> string option"
  print_result :: "event list \<Rightarrow> string \<Rightarrow> string option"
  sleep_result :: "event list \<Rightarrow> real \<Rightarrow> string option"
  time_now :: "event list \<Rightarrow> int"
  netloc_error :: "string \<Rightarrow> string option"
  decode_escapes :: "string \<Rightarrow> string"

definition urlparse_path :: "env \<Rightarrow> string \<Rightarrow> fault + string" where
  \<comment> \<open>\<open>urlparse(url).path\<close>\<close>
  "urlparse_path env url =
     (let (scheme, url1) = split_scheme (clean_url url);
          (netloc, url2) = split_netloc url1
      in case netloc_error env netloc of
           Some msg \<Rightarrow> Inl (OtherException msg)
         | None \<Rightarrow>
             (let url3 = takeWhile (\<lambda>c. c \<noteq> CHR ''#'') url2;
                  url4 = takeWhile (\<lambda>c. c \<noteq> CHR ''?'') url3
              in Inr (if scheme \<in> set uses_params \<and> CHR '';'' \<in> set url4
                      then splitparams url4 else url4)))"

definition unquote :: "env \<Rightarrow> string \<Rightarrow> string" where
  \<comment> \<open>\<open>if '%' not in string: return string\<close>, else the escapes are decoded\<close>
  "unquote env s = (if CHR ''%'' \<notin> set s then s else decode_escapes env s)"

definition raise_for_status :: "response \<Rightarrow> fault option" where
  \<comment> \<open>\<open>Response.raise_for_status\<close>: \<open>HTTPError\<close>, a \<open>RequestException\<close>, for 4xx and 5xx\<close>
  "raise_for_status r =
     (if 400 \<le> status_code r \<and> status_code r < 500
      then Some (RequestException (str_int (status_code r) @ '' Client Error: '' @ reason r
                                    @ '' for url: '' @ resp_url r))
      else if 500 \<le> status_code r \<and> status_code r < 600
      then Some (RequestException (str_int (status_code r) @ '' Server Error: '' @ reason r
                                    @ '' for url: '' @ resp_url r))
      else None)"

section \<open>\<open>download_pdf\<close>\<close>

definition falsy :: "string option \<Rightarrow> bool" where
  \<comment> \<open>\<open>not filename\<close>: \<open>None\<close> or the empty string\<close>
  "falsy f = (case f of None \<Rightarrow> True | Some s \<Rightarrow> s = [])"

definition header_filename :: "string \<Rightarrow> fault + string" where
  \<comment> \<open>\<open>content_disp.split('filename=')[1].strip('"')\<close>; an index out of range raises\<close>
  "header_filename content_disp =
     (case drop 1 (str_split ''filename='' content_disp) of
        [] \<Rightarrow> Inl (OtherException ''list index out of range'')
      | part # _ \<Rightarrow> Inr (strip_chars [CHR 0x22] part))"

definition from_header :: "response \<Rightarrow> string option \<Rightarrow> fault + string option" where
  \<comment> \<open>lines 39 to 42: the name that the \<open>Content-Disposition\<close> header gives, if any\<close>
  "from_header r filename =
     (case headers r (str_lower ''Content-Disposition'') of
        None \<Rightarrow> Inr filename
      | Some content_disp \<Rightarrow>
          if str_contains ''filename='' content_disp
          then (case header_filename content_disp of
                  Inl e \<Rightarrow> Inl e
                | Inr name \<Rightarrow> Inr (Some name))
          else Inr filename)"

definition from_url :: "env \<Rightarrow> string \<Rightarrow> string option \<Rightarrow> fault + string option" where
  \<comment> \<open>lines 45 to 47: if there is still no name, the last segment of the URL's path\<close>
  "from_url env url filename =
     (if falsy filename
      then (case urlparse_path env url of
              Inl e \<Rightarrow> Inl e
            | Inr path \<Rightarrow> Inr (Some (unquote env (basename path))))
      else Inr filename)"

definition synthesized :: "env \<Rightarrow> event list \<Rightarrow> string" where
  \<comment> \<open>\<open>f"document_{int(time.time())}.pdf"\<close>\<close>
  "synthesized env tr = ''document_'' @ str_int (time_now env tr) @ ''.pdf''"

definition or_synthesized :: "env \<Rightarrow> event list \<Rightarrow> string option \<Rightarrow> string" where
  \<comment> \<open>lines 50 and 51\<close>
  "or_synthesized env tr filename =
     (case filename of
        None \<Rightarrow> synthesized env tr
      | Some name \<Rightarrow>
          if name = [] \<or> \<not> endswith name ''.pdf'' then synthesized env tr else name)"

definition ensure_pdf :: "string \<Rightarrow> string" where
  \<comment> \<open>lines 54 and 55\<close>
  "ensure_pdf name = (if \<not> endswith name ''.pdf'' then name @ ''.pdf'' else name)"

definition derive_filename ::
  "env \<Rightarrow> event list \<Rightarrow> string \<Rightarrow> response \<Rightarrow> string option \<Rightarrow> fault + string" where
  \<comment> \<open>lines 38 to 51, entered when \<open>not filename\<close>\<close>
  "derive_filename env tr url r filename =
     (case from_header r filename of
        Inl e \<Rightarrow> Inl e
      | Inr f1 \<Rightarrow>
          (case from_url env url f1 of
             Inl e \<Rightarrow> Inl e
           | Inr f2 \<Rightarrow> Inr (or_synthesized env tr f2)))"

definition resolve_filename ::
  "env \<Rightarrow> event list \<Rightarrow> string \<Rightarrow> response \<Rightarrow> string option \<Rightarrow> fault + string" where
  \<comment> \<open>lines 37 to 55: the name under which the body is saved\<close>
  "resolve_filename env tr url r filename =
     (case (if falsy filename then derive_filename env tr url r filename
            else (case filename of None \<Rightarrow> derive_filename env tr url r filename
                                 | Some name \<Rightarrow> Inr name)) of
        Inl e \<Rightarrow> Inl e
      | Inr name \<Rightarrow> Inr (ensure_pdf name))"

fun write_chunks ::
  "env \<Rightarrow> string \<Rightarrow> string list \<Rightarrow> event list \<Rightarrow> fault option \<times> event list" where
  \<comment> \<open>lines 62 to 64: every non-empty chunk is written; a failing write raises\<close>
  "write_chunks env path [] tr = (None, tr)"
| "write_chunks env path (chunk # rest) tr =
     (if chunk = [] then write_chunks env path rest tr
      else case write_result env tr path chunk of
             Some msg \<Rightarrow> (Some (OtherException msg), tr @ [WriteChunk path chunk])
           | None \<Rightarrow> write_chunks env path rest (tr @ [WriteChunk path chunk]))"

definition content_type_of :: "response \<Rightarrow> string" where
  \<comment> \<open>\<open>response.headers.get('content-type', '').lower()\<close>\<close>
  "content_type_of r =
     str_lower (case headers r (str_lower ''content-type'') of None \<Rightarrow> '''' | Some v \<Rightarrow> v)"

definition print_line :: "env \<Rightarrow> string \<Rightarrow> event list \<Rightarrow> fault option \<times> event list" where
  \<comment> \<open>\<open>print(line)\<close>: the call is recorded; it may raise\<close>
  "print_line env line tr =
     (case print_result env tr line of
        Some msg \<Rightarrow> (Some (OtherException msg), tr @ [Print line])
      | None \<Rightarrow> (None, tr @ [Print line]))"

definition warn_content_type ::
  "env \<Rightarrow> string \<Rightarrow> response \<Rightarrow> event list \<Rightarrow> fault option \<times> event list" where
  \<comment> \<open>lines 32 to 34\<close>
  "warn_content_type env url r tr =
     (if \<not> str_contains ''application/pdf'' (content_type_of r)
      then print_line env (''Warning: URL '' @ url @ '' might not be a PDF (Content-Type: ''
                           @ content_type_of r @ '')'') tr
      else (None, tr))"

definition receive ::
  "env \<Rightarrow> string \<Rightarrow> response \<Rightarrow> event list \<Rightarrow> fault option \<times> event list" where
  \<comment> \<open>lines 62 to 64: the loop over \<open>iter_content\<close>, which ends when the stream ends or
      raises\<close>
  "receive env filepath r tr =
     (case write_chunks env filepath (chunks r) tr of
        (Some e, tr') \<Rightarrow> (Some e, tr')
      | (None, tr') \<Rightarrow> (stream_fault r, tr'))"

definition save_body ::
  "env \<Rightarrow> string \<Rightarrow> string \<Rightarrow> response \<Rightarrow> event list \<Rightarrow> fault option \<times> event list" where
  \<comment> \<open>lines 58 to 66. Leaving the \<open>with\<close> block closes the file, also when the block
      raised; an exception of the close is the one that goes on.\<close>
  "save_body env output_dir name r tr =
     (let filepath = path_join output_dir name
      in case open_result env tr filepath of
           Some msg \<Rightarrow> (Some (OtherException msg), tr @ [OpenWrite filepath])
         | None \<Rightarrow>
             (case receive env filepath r (tr @ [OpenWrite filepath]) of
                (res, tr') \<Rightarrow>
                  (case close_result env tr' filepath of
                     Some msg \<Rightarrow> (Some (OtherException msg), tr' @ [CloseFile filepath])
                   | None \<Rightarrow>
                       (case res of
                          Some e \<Rightarrow> (Some e, tr' @ [CloseFile filepath])
                        | None \<Rightarrow>
                            print_line env (''Successfully downloaded: '' @ name)
                              (tr' @ [CloseFile filepath])))))"

definition after_response ::
  "env \<Rightarrow> string \<Rightarrow> string \<Rightarrow> string option \<Rightarrow> response \<Rightarrow> event list
     \<Rightarrow> fault option \<times> event list" where
  \<comment> \<open>lines 31 to 66: what the \<open>try\<close> does with a response that passed
      \<open>raise_for_status\<close>\<close>
  "after_response env url output_dir filename r tr =
     (case warn_content_type env url r tr of
        (Some e, tr1) \<Rightarrow> (Some e, tr1)
      | (None, tr1) \<Rightarrow>
          (case resolve_filename env tr1 url r filename of
             Inl e \<Rightarrow> (Some e, tr1)
           | Inr name \<Rightarrow> save_body env output_dir name r tr1))"

definition download_pdf_try ::
  "env \<Rightarrow> event list \<Rightarrow> string \<Rightarrow> string \<Rightarrow> string option \<Rightarrow> fault option \<times> event list" where
  \<comment> \<open>the body of the \<open>try\<close>, lines 21 to 67: the exception it raises, or \<open>None\<close> when it
      reaches \<open>return True\<close>, and the events up to there\<close>
  "download_pdf_try env tr url output_dir filename =
     (case mkdir_result env tr output_dir of
        Some msg \<Rightarrow> (Some (OtherException msg), tr @ [Mkdir output_dir])
      | None \<Rightarrow>
          (case get_result env (tr @ [Mkdir output_dir]) url of
             Inl e \<Rightarrow> (Some e, tr @ [Mkdir output_dir, HttpGet url])
           | Inr r \<Rightarrow>
               (case raise_for_status r of
                  Some e \<Rightarrow> (Some e, tr @ [Mkdir output_dir, HttpGet url])
                | None \<Rightarrow>
                    after_response env url output_dir filename r
                      (tr @ [Mkdir output_dir, HttpGet url]))))"

definition report :: "string \<Rightarrow> fault \<Rightarrow> string" where
  \<comment> \<open>the line that the handler of the exception prints, lines 70 and 73\<close>
  "report url e =
     (case e of
        RequestException msg \<Rightarrow> ''Error downloading '' @ url @ '': '' @ msg
      | OtherException msg \<Rightarrow> ''Unexpected error downloading '' @ url @ '': '' @ msg)"

definition download_pdf ::
  "env \<Rightarrow> event list \<Rightarrow> string \<Rightarrow> string \<Rightarrow> string option \<Rightarrow> (fault + bool) \<times> event list" where
  \<comment> \<open>lines 20 to 74: the \<open>try\<close> with its two handlers. \<open>Inr b\<close> is \<open>return b\<close>. An
      exception raised by the \<open>print\<close> of a handler is caught by no clause and leaves
      the function: \<open>Inl e\<close>.\<close>
  "download_pdf env tr url output_dir filename =
     (case download_pdf_try env tr url output_dir filename of
        (None, tr') \<Rightarrow> (Inr True, tr')
      | (Some e, tr') \<Rightarrow>
          (case print_line env (report url e) tr' of
             (None, tr'') \<Rightarrow> (Inr False, tr'')
           | (Some e', tr'') \<Rightarrow> (Inl e', tr'')))"

section \<open>\<open>download_pdfs_from_list\<close>\<close>

text \<open>
  The delay is a Python number, an int or a finite float, taken as a real.
\<close>

record batch =
  successful :: "string list"
  failed :: "string list"
  trace :: "event list"

definition pause :: "env \<Rightarrow> real \<Rightarrow> event list \<Rightarrow> fault + event list" where
  \<comment> \<open>lines 99 and 100: \<open>if delay > 0: time.sleep(delay)\<close>\<close>
  "pause env delay tr =
     (if delay > 0
      then (case sleep_result env tr delay of
              Some msg \<Rightarrow> Inl (OtherException msg)
            | None \<Rightarrow> Inr (tr @ [Sleep delay]))
      else Inr tr)"

fun batch_loop ::
  "env \<Rightarrow> string \<Rightarrow> real \<Rightarrow> string list \<Rightarrow> batch \<Rightarrow> fault + batch" where
  \<comment> \<open>lines 91 to 100: the \<open>for\<close> loop over the URLs; there is no handler, so an exception
      from \<open>download_pdf\<close> or from \<open>time.sleep\<close> ends the loop and the call\<close>
  "batch_loop env output_dir delay [] b = Inr b"
| "batch_loop env output_dir delay (url # urls) b =
     (case download_pdf env (trace b) (str_strip url) output_dir None of
        (Inl e, tr) \<Rightarrow> Inl e
      | (Inr success, tr) \<Rightarrow>
          (case pause env delay tr of
             Inl e \<Rightarrow> Inl e
           | Inr tr' \<Rightarrow>
               batch_loop env output_dir delay urls
                 \<lparr> successful = (if success then successful b @ [url] else successful b),
                   failed = (if success then failed b else failed b @ [url]),
                   trace = tr' \<rparr>))"

definition download_pdfs_from_list ::
  "env \<Rightarrow> event list \<Rightarrow> string list \<Rightarrow> string \<Rightarrow> real \<Rightarrow> fault + batch" where
  \<comment> \<open>lines 88 to 102\<close>
  "download_pdfs_from_list env tr urls output_dir delay =
     batch_loop env output_dir delay urls \<lparr> successful = [], failed = [], trace = tr \<rparr>"

section \<open>The batch as a sequence of attempts\<close>

text \<open>
  The batch driver as the specification words it: the URLs are taken in input order, the
  fetcher is called on each one with its surrounding whitespace trimmed, one call after
  the other, and a positive delay is slept after each call. \<open>attempts\<close> gives the
  outcome of every call in order and the events at the end, or the exception that ended
  the run; \<open>chosen\<close> picks the input strings whose outcome is the given one, in their
  input order.
\<close>

fun attempts ::
  "env \<Rightarrow> string \<Rightarrow> real \<Rightarrow> string list \<Rightarrow> event list \<Rightarrow> fault + bool list \<times> event list" where
  "attempts env output_dir delay [] tr = Inr ([], tr)"
| "attempts env output_dir delay (url # urls) tr =
     (case download_pdf env tr (str_strip url) output_dir None of
        (Inl e, tr1) \<Rightarrow> Inl e
      | (Inr ok, tr1) \<Rightarrow>
          (case pause env delay tr1 of
             Inl e \<Rightarrow> Inl e
           | Inr tr2 \<Rightarrow>
               (case attempts env output_dir delay urls tr2 of
                  Inl e \<Rightarrow> Inl e
                | Inr (oks, tr3) \<Rightarrow> Inr (ok # oks, tr3))))"

definition chosen :: "bool \<Rightarrow> string list \<Rightarrow> bool list \<Rightarrow> string list" where
  "chosen flag urls oks = map fst (filter (\<lambda>(u, ok). ok = flag) (zip urls oks))"

fun sleeps :: "event list \<Rightarrow> real list" where
  \<comment> \<open>the arguments of the calls of \<open>time.sleep\<close>, in order\<close>
  "sleeps [] = []"
| "sleeps (Sleep d # es) = d # sleeps es"
| "sleeps (e # es) = sleeps es"

fun requested :: "event list \<Rightarrow> string list" where
  \<comment> \<open>the URLs passed to \<open>requests.get\<close>, in order\<close>
  "requested [] = []"
| "requested (HttpGet u # es) = u # requested es"
| "requested (e # es) = requested es"

text \<open>
  The shape of the events of a batch: the events of the attempts, one segment per URL,
  each followed by the sleep when the delay is positive. \<open>started segs i\<close> are the
  events when attempt \<open>i\<close> starts.
\<close>

definition gap :: "real \<Rightarrow> event list" where
  "gap delay = (if delay > 0 then [Sleep delay] else [])"

definition started :: "event list \<Rightarrow> real \<Rightarrow> event list list \<Rightarrow> nat \<Rightarrow> event list" where
  "started tr delay segs i = tr @ concat (map (\<lambda>seg. seg @ gap delay) (take i segs))"

section \<open>The name a response suggests\<close>

text \<open>
  The filename parsed out of a \<open>Content-Disposition\<close> header, as the specification
  words it: the header is present, it contains \<open>filename=\<close>, and what follows, with
  surrounding double quotes removed, is not empty.
\<close>

definition header_name :: "response \<Rightarrow> string option" where
  "header_name r =
     (case headers r ''content-disposition'' of
        None \<Rightarrow> None
      | Some content_disp \<Rightarrow>
          if str_contains ''filename='' content_disp
          then (let name = strip_chars [CHR 0x22] (str_split ''filename='' content_disp ! 1)
                in if name = [] then None else Some name)
          else None)"

section \<open>Sample environments\<close>

text \<open>
  A server that answers every request the same way, on a machine where every directory
  can be made, every file written and closed, every line printed and every delay slept, at a fixed
  time. The variants below differ from it in one answer each.
\<close>

definition pdf_response :: response where
  "pdf_response =
     \<lparr> status_code = 200, reason = ''OK'', resp_url = ''https://x/a.pdf'',
       headers = [''content-type'' \<mapsto> ''application/pdf''],
       chunks = [''%PDF-1.4'', ''%%EOF''], stream_fault = None \<rparr>"

definition serving :: "(event list \<Rightarrow> string \<Rightarrow> fault + response) \<Rightarrow> env" where
  "serving answer =
     \<lparr> mkdir_result = (\<lambda>tr d. None), get_result = answer,
       open_result = (\<lambda>tr p. None), write_result = (\<lambda>tr p c. None),
       close_result = (\<lambda>tr p. None),
       print_result = (\<lambda>tr l. None), sleep_result = (\<lambda>tr s. None),
       time_now = (\<lambda>tr. 1700000000), netloc_error = (\<lambda>n. None),
       decode_escapes = (\<lambda>s. s) \<rparr>"

definition env_pdf :: env where
  "env_pdf = serving (\<lambda>tr u. Inr pdf_response)"

definition env_not_modified :: env where
  "env_not_modified =
     serving (\<lambda>tr u. Inr (pdf_response \<lparr> status_code := 304, reason := ''Not Modified'',
                                            chunks := [] \<rparr>))"

definition env_not_found :: env where
  "env_not_found =
     serving (\<lambda>tr u. Inr (pdf_response \<lparr> status_code := 404, reason := ''Not Found'' \<rparr>))"

definition errno13 :: string where
  \<comment> \<open>the text of the \<open>PermissionError\<close> that \<open>mkdir\<close> raises for \<open>out\<close>\<close>
  "errno13 = ''[Errno 13] Permission denied: '' @ [CHR 0x27] @ ''out'' @ [CHR 0x27]"

definition env_no_mkdir :: env where
  "env_no_mkdir = env_pdf \<lparr> mkdir_result := (\<lambda>tr d. Some errno13) \<rparr>"



definition env_ab :: env where
  \<comment> \<open>a server that has \<open>a.pdf\<close> and answers 404 for everything else\<close>
  "env_ab =
     serving (\<lambda>tr u. if u = ''https://x/a.pdf'' then Inr pdf_response
                       else Inr (pdf_response \<lparr> status_code := 404, reason := ''Not Found'',
                                                  resp_url := u \<rparr>))"

definition env_flaky :: env where
  \<comment> \<open>a server that times out on the first request for a URL and answers the next\<close>
  "env_flaky =
     serving (\<lambda>tr u. if HttpGet u \<in> set tr then Inr pdf_response
                       else Inl (RequestException ''Read timed out.''))"

definition report_header :: string where
  "report_header = ''attachment; filename='' @ [CHR 0x22] @ ''report_2020.pdf'' @ [CHR 0x22]"

definition env_report_header :: env where
  "env_report_header =
     serving (\<lambda>tr u. Inr (pdf_response \<lparr> headers := [''content-disposition'' \<mapsto> report_header] \<rparr>))"

definition extensionless_header :: response where
  "extensionless_header =
     pdf_response \<lparr> headers := [''content-disposition'' \<mapsto> ''attachment; filename=report''] \<rparr>"

definition two_urls :: "string list" where
  \<comment> \<open>the first URL has whitespace around it\<close>
  "two_urls = ['' https://x/a.pdf '', ''https://x/b.pdf'']"

definition two_urls_result :: batch where
  \<comment> \<open>what the batch call on \<open>two_urls\<close> returns from \<open>env_ab\<close> with a delay of 1\<close>
  "two_urls_result =
     \<lparr> successful = ['' https://x/a.pdf ''], failed = [''https://x/b.pdf''],
       trace = [Mkdir ''out'', HttpGet ''https://x/a.pdf'', OpenWrite ''out/a.pdf'',
                WriteChunk ''out/a.pdf'' ''%PDF-1.4'', WriteChunk ''out/a.pdf'' ''%%EOF'',
                CloseFile ''out/a.pdf'', Print ''Successfully downloaded: a.pdf'', Sleep 1,
                Mkdir ''out'', HttpGet ''https://x/b.pdf'',
                Print ''Error downloading https://x/b.pdf: 404 Client Error: Not Found for url: https://x/b.pdf'',
                Sleep 1] \<rparr>"

section \<open>Auxiliary facts\<close>

lemma startswith_iff: "startswith s p \<longleftrightarrow> (\<exists>t. s = p @ t)"
  by (induction s p rule: startswith.induct) auto

lemma endswith_iff: "endswith s p \<longleftrightarrow> (\<exists>t. s = t @ p)"
proof
  assume "endswith s p"
  then obtain t where "rev s = rev p @ t"
    by (auto simp: endswith_def startswith_iff)
  then have "s = rev t @ p" by (metis rev_append rev_rev_ident)
  then show "\<exists>t. s = t @ p" ..
next
  assume "\<exists>t. s = t @ p"
  then show "endswith s p" by (auto simp: endswith_def startswith_iff)
qed

lemma endswith_append [simp]: "endswith (t @ p) p"
  by (auto simp: endswith_iff)

lemma endswith_Nil [simp]: "p \<noteq> [] \<Longrightarrow> \<not> endswith [] p"
  by (cases p rule: rev_cases) (auto simp: endswith_def)

lemma str_split_neq_Nil: "str_split sep s \<noteq> []"
  by (subst str_split.simps) (simp split: option.splits)

lemma str_split_contains:
  assumes "str_contains sep s" and "sep \<noteq> []"
  shows "\<exists>a b rest. str_split sep s = a # b # rest"
proof -
  from assms(1) obtain i where i: "str_find sep s = Some i"
    by (auto simp: str_contains_def)
  obtain b rest where "str_split sep (drop (i + length sep) s) = b # rest"
    using str_split_neq_Nil by (meson neq_Nil_conv)
  with i assms(2) show ?thesis
    by (subst str_split.simps) simp
qed

lemma header_filename_Inr:
  assumes "str_contains ''filename='' cd"
  shows "header_filename cd = Inr (strip_chars [CHR 0x22] (str_split ''filename='' cd ! 1))"
proof -
  from str_split_contains [OF assms] obtain a b rest
    where "str_split ''filename='' cd = a # b # rest" by auto
  then show ?thesis by (simp add: header_filename_def)
qed

lemma lower_content_disposition [simp]:
  "str_lower ''Content-Disposition'' = ''content-disposition''"
  by code_simp

lemma from_header_name:
  "from_header r filename = Inr (case header_name r of
       Some name \<Rightarrow> Some name
     | None \<Rightarrow> (case headers r ''content-disposition'' of
          None \<Rightarrow> filename
        | Some cd \<Rightarrow> if str_contains ''filename='' cd then Some [] else filename))"
  by (auto simp: from_header_def header_name_def header_filename_Inr Let_def split: option.splits)

lemma synthesized_pdf [simp]: "endswith (synthesized env tr) ''.pdf''"
proof -
  have "synthesized env tr = (''document_'' @ str_int (time_now env tr)) @ ''.pdf''"
    by (simp add: synthesized_def)
  then show ?thesis by (simp only: endswith_append)
qed

lemma or_synthesized_pdf [simp]: "endswith (or_synthesized env tr f) ''.pdf''"
  by (simp add: or_synthesized_def split: option.splits)

lemma derive_by_header:
  assumes "header_name r = Some name" and "falsy filename"
  shows "derive_filename env tr url r filename
           = Inr (if endswith name ''.pdf'' then name else synthesized env tr)"
proof -
  from assms(1) have "name \<noteq> []"
    by (auto simp: header_name_def Let_def split: option.splits if_splits)
  with assms(1) show ?thesis
    by (simp add: derive_filename_def from_header_name from_url_def falsy_def or_synthesized_def)
qed

lemma derive_by_url:
  assumes "header_name r = None" and "falsy filename"
  shows "derive_filename env tr url r filename
           = (case urlparse_path env url of
                Inl e \<Rightarrow> Inl e
              | Inr path \<Rightarrow>
                  Inr (if endswith (unquote env (basename path)) ''.pdf''
                       then unquote env (basename path) else synthesized env tr))"
proof -
  have f: "falsy (case headers r ''content-disposition'' of
          None \<Rightarrow> filename
        | Some cd \<Rightarrow> if str_contains ''filename='' cd then Some [] else filename)"
    using assms(2) by (simp add: falsy_def split: option.splits)
  show ?thesis
    using assms(1) f
    by (auto simp: derive_filename_def from_header_name from_url_def or_synthesized_def
             split: sum.splits)
qed

lemma resolve_derived:
  assumes "falsy filename"
  shows "resolve_filename env tr url r filename = derive_filename env tr url r filename"
proof -
  have "endswith name ''.pdf''" if "derive_filename env tr url r filename = Inr name" for name
    using that by (auto simp: derive_filename_def split: sum.splits)
  then show ?thesis
    using assms by (auto simp: resolve_filename_def ensure_pdf_def split: sum.splits)
qed

lemma resolve_explicit:
  assumes "name \<noteq> []"
  shows "resolve_filename env tr url r (Some name)
           = Inr (if endswith name ''.pdf'' then name else name @ ''.pdf'')"
  using assms by (simp add: resolve_filename_def falsy_def ensure_pdf_def)

lemma basename_of_suffix:
  assumes "endswith path (CHR ''/'' # seg)" and "CHR ''/'' \<notin> set seg"
  shows "basename path = seg"
proof -
  from assms(1) obtain t where "path = t @ CHR ''/'' # seg"
    by (auto simp: endswith_iff)
  then have "rev path = rev seg @ CHR ''/'' # rev t"
    by simp
  moreover have "takeWhile (\<lambda>c. c \<noteq> CHR ''/'') (rev seg @ CHR ''/'' # rev t) = rev seg"
    using assms(2) by (subst takeWhile_append2) auto
  ultimately show ?thesis
    by (simp add: basename_def)
qed

lemma str_nat_digit: "n < 10 \<Longrightarrow> str_nat n = [digit_char n]"
  by (simp add: str_nat.simps)

lemma str_nat_numeral:
  "str_nat (numeral k) =
     (if (numeral k :: nat) < 10 then [digit_char (numeral k)]
      else str_nat (numeral k div 10) @ [digit_char (numeral k mod 10)])"
  by (rule str_nat.simps)

lemma sample_time_name: "synthesized env_pdf tr = ''document_1700000000.pdf''"
  by (simp add: synthesized_def env_pdf_def serving_def str_int_def str_nat_numeral
        str_nat_digit digit_char_def)

lemma write_chunks_ok:
  assumes "\<forall>t c. write_result env t p c = None"
  shows "write_chunks env p cs tr = (None, tr @ map (WriteChunk p) (filter (\<lambda>c. c \<noteq> []) cs))"
  using assms by (induction cs arbitrary: tr) auto

lemma report_header_name: "header_name r = Some ''report_2020.pdf''"
  if "headers r ''content-disposition'' = Some report_header"
proof -
  have c: "str_contains ''filename='' report_header"
    by code_simp
  have n: "strip_chars [CHR 0x22] (str_split ''filename='' report_header ! 1) = ''report_2020.pdf''"
    by code_simp
  show ?thesis
    using that c n by (simp add: header_name_def)
qed

lemma chosen_Nil [simp]: "chosen flag [] oks = []"
  by (simp add: chosen_def)

lemma chosen_Cons [simp]:
  "chosen flag (u # urls) (ok # oks) = (if ok = flag then u # chosen flag urls oks else chosen flag urls oks)"
  by (simp add: chosen_def)

lemma length_chosen:
  "length oks = length urls \<Longrightarrow> length (chosen True urls oks) + length (chosen False urls oks) = length urls"
  by (induction urls oks rule: list_induct2') auto

lemma mset_chosen:
  "length oks = length urls \<Longrightarrow> mset (chosen True urls oks) + mset (chosen False urls oks) = mset urls"
  by (induction urls oks rule: list_induct2') auto

lemma subseq_chosen: "subseq (chosen flag urls oks) urls"
proof (induction urls arbitrary: oks)
  case Nil
  show ?case by simp
next
  case (Cons u urls)
  show ?case
  proof (cases oks)
    case Nil
    then show ?thesis by (simp add: chosen_def)
  next
    case (Cons ok oks')
    with Cons.IH [of oks'] show ?thesis by (auto intro: subseq_Cons')
  qed
qed

lemma sleeps_append [simp]: "sleeps (a @ b) = sleeps a @ sleeps b"
  by (induction a rule: sleeps.induct) auto

lemma requested_append [simp]: "requested (a @ b) = requested a @ requested b"
  by (induction a rule: requested.induct) auto

lemma print_line_sleeps [simp]: "sleeps (snd (print_line env line tr)) = sleeps tr"
  by (simp add: print_line_def split: option.splits)

lemma print_line_requested [simp]: "requested (snd (print_line env line tr)) = requested tr"
  by (simp add: print_line_def split: option.splits)

lemma print_line_prefix [simp]: "prefix tr (snd (print_line env line tr))"
  by (simp add: print_line_def split: option.splits)

lemma write_chunks_sleeps [simp]: "sleeps (snd (write_chunks env p cs tr)) = sleeps tr"
  by (induction cs arbitrary: tr) (auto split: option.splits)

lemma write_chunks_requested [simp]: "requested (snd (write_chunks env p cs tr)) = requested tr"
  by (induction cs arbitrary: tr) (auto split: option.splits)

lemma write_chunks_prefix [simp]: "prefix tr (snd (write_chunks env p cs tr))"
proof (induction cs arbitrary: tr)
  case Nil
  show ?case by simp
next
  case (Cons c cs)
  from Cons.IH [of "tr @ [WriteChunk p c]"]
  have "prefix tr (snd (write_chunks env p cs (tr @ [WriteChunk p c])))"
    by (rule append_prefixD)
  with Cons.IH [of tr] show ?case
    by (simp split: option.splits)
qed

lemma warn_sleeps [simp]: "sleeps (snd (warn_content_type env url r tr)) = sleeps tr"
  by (simp add: warn_content_type_def)

lemma warn_requested [simp]: "requested (snd (warn_content_type env url r tr)) = requested tr"
  by (simp add: warn_content_type_def)

lemma warn_prefix [simp]: "prefix tr (snd (warn_content_type env url r tr))"
  by (simp add: warn_content_type_def)

lemma receive_sleeps [simp]: "sleeps (snd (receive env p r tr)) = sleeps tr"
  by (simp add: receive_def split_beta split: option.splits)

lemma receive_requested [simp]: "requested (snd (receive env p r tr)) = requested tr"
  by (simp add: receive_def split_beta split: option.splits)

lemma receive_prefix [simp]: "prefix tr (snd (receive env p r tr))"
  by (simp add: receive_def split_beta split: option.splits)

lemma save_body_sleeps [simp]: "sleeps (snd (save_body env d name r tr)) = sleeps tr"
  by (auto simp: save_body_def Let_def split_beta split: option.splits)

lemma save_body_requested [simp]: "requested (snd (save_body env d name r tr)) = requested tr"
  by (auto simp: save_body_def Let_def split_beta split: option.splits)

lemma save_body_prefix [simp]: "prefix tr (snd (save_body env d name r tr))"
proof -
  let ?p = "path_join d name"
  let ?w = "snd (receive env ?p r (tr @ [OpenWrite ?p])) @ [CloseFile ?p]"
  have "prefix tr (snd (receive env ?p r (tr @ [OpenWrite ?p])))"
    using receive_prefix [of "tr @ [OpenWrite ?p]" env ?p r]
    by (rule append_prefixD)
  then have w: "prefix tr ?w"
    by (rule prefix_order.trans) simp
  have "prefix ?w (snd (print_line env line ?w))" for line
    by simp
  with w have "prefix tr (snd (print_line env line ?w))" for line
    by (rule prefix_order.trans)
  with w show ?thesis
    by (auto simp: save_body_def Let_def split_beta split: option.splits)
qed

lemma after_response_sleeps [simp]:
  "sleeps (snd (after_response env url d fn r tr)) = sleeps tr"
  by (auto simp: after_response_def split_beta split: option.splits sum.splits)

lemma after_response_requested [simp]:
  "requested (snd (after_response env url d fn r tr)) = requested tr"
  by (auto simp: after_response_def split_beta split: option.splits sum.splits)

lemma after_response_prefix [simp]: "prefix tr (snd (after_response env url d fn r tr))"
proof -
  let ?w = "snd (warn_content_type env url r tr)"
  have "prefix tr (snd (save_body env d name r ?w))" for name
    using warn_prefix save_body_prefix by (rule prefix_order.trans)
  then show ?thesis
    by (auto simp: after_response_def split_beta split: option.splits sum.splits)
qed

lemma try_sleeps [simp]: "sleeps (snd (download_pdf_try env tr url d fn)) = sleeps tr"
  by (auto simp: download_pdf_try_def split: option.splits sum.splits)

lemma try_requested:
  "mkdir_result env tr d = None \<Longrightarrow>
   requested (snd (download_pdf_try env tr url d fn)) = requested tr @ [url]"
  by (auto simp: download_pdf_try_def split: option.splits sum.splits)

lemma try_prefix [simp]: "prefix tr (snd (download_pdf_try env tr url d fn))"
proof -
  have "prefix tr (snd (after_response env url d fn r (tr @ [Mkdir d, HttpGet url])))" for r
    using after_response_prefix [of "tr @ [Mkdir d, HttpGet url]" env url d fn r]
    by (rule append_prefixD)
  then show ?thesis
    by (auto simp: download_pdf_try_def split: option.splits sum.splits)
qed

lemma download_pdf_snd:
  "snd (download_pdf env tr url d fn) =
     (case download_pdf_try env tr url d fn of
        (None, tr') \<Rightarrow> tr'
      | (Some e, tr') \<Rightarrow> tr' @ [Print (report url e)])"
  by (auto simp: download_pdf_def print_line_def split: prod.splits option.splits)

lemma download_pdf_sleeps [simp]: "sleeps (snd (download_pdf env tr url d fn)) = sleeps tr"
proof -
  have "sleeps (snd (download_pdf_try env tr url d fn)) = sleeps tr" by simp
  then show ?thesis
    by (auto simp: download_pdf_snd split_beta split: option.splits)
qed

lemma download_pdf_requested:
  assumes "mkdir_result env tr d = None"
  shows "requested (snd (download_pdf env tr url d fn)) = requested tr @ [url]"
proof -
  from try_requested [OF assms]
  have "requested (snd (download_pdf_try env tr url d fn)) = requested tr @ [url]" .
  then show ?thesis
    by (auto simp: download_pdf_snd split_beta split: option.splits)
qed

lemma download_pdf_prefix [simp]: "prefix tr (snd (download_pdf env tr url d fn))"
proof -
  have p: "prefix tr (snd (download_pdf_try env tr url d fn))" by simp
  then have "prefix tr (snd (download_pdf_try env tr url d fn) @ es)" for es
    by (rule prefix_order.trans) simp
  with p show ?thesis
    by (auto simp: download_pdf_snd split_beta split: option.splits)
qed

lemma download_pdf_segment:
  assumes "download_pdf env tr url d fn = (res, tr')"
  obtains seg where "tr' = tr @ seg" and "sleeps seg = []"
proof -
  from download_pdf_prefix [of tr env url d fn] assms obtain seg where seg: "tr' = tr @ seg"
    by (auto simp: prefix_def)
  from download_pdf_sleeps [of env tr url d fn] assms seg have "sleeps seg = []"
    by simp
  with seg that show ?thesis by blast
qed

lemma pause_gap: "pause env delay tr = Inr tr' \<Longrightarrow> tr' = tr @ gap delay"
  by (auto simp: pause_def gap_def split: if_splits option.splits)

lemma batch_loop_attempts:
  "batch_loop env d delay urls b =
     (case attempts env d delay urls (trace b) of
        Inl e \<Rightarrow> Inl e
      | Inr (oks, tr') \<Rightarrow>
          Inr \<lparr> successful = successful b @ chosen True urls oks,
                failed = failed b @ chosen False urls oks,
                trace = tr' \<rparr>)"
  by (induction urls arbitrary: b) (auto split: prod.splits sum.splits)

lemma batch_as_attempts:
  assumes "download_pdfs_from_list env tr urls d delay = Inr b"
  shows "\<exists>oks. attempts env d delay urls tr = Inr (oks, trace b)
           \<and> successful b = chosen True urls oks \<and> failed b = chosen False urls oks"
  using assms
  by (auto simp: download_pdfs_from_list_def batch_loop_attempts split: sum.splits)

lemma length_attempts:
  "attempts env d delay urls tr = Inr (oks, tr') \<Longrightarrow> length oks = length urls"
  by (induction urls arbitrary: tr oks) (auto split: prod.splits sum.splits)

lemma attempts_sleeps:
  "attempts env d delay urls tr = Inr (oks, tr') \<Longrightarrow>
   sleeps tr' = sleeps tr @ (if delay > 0 then replicate (length urls) delay else [])"
proof (induction urls arbitrary: tr oks)
  case Nil
  then show ?case by simp
next
  case (Cons u urls)
  from Cons.prems obtain ok tr1 tr2 oks'
    where f: "download_pdf env tr (str_strip u) d None = (Inr ok, tr1)"
      and p: "pause env delay tr1 = Inr tr2"
      and r: "attempts env d delay urls tr2 = Inr (oks', tr')"
    by (auto split: prod.splits sum.splits)
  from f have "sleeps tr1 = sleeps tr"
    using download_pdf_sleeps [of env tr "str_strip u" d None] by simp
  with pause_gap [OF p] have "sleeps tr2 = sleeps tr @ (if delay > 0 then [delay] else [])"
    by (simp add: gap_def)
  with Cons.IH [OF r] show ?case
    by (simp flip: replicate_append_same)
qed

lemma attempts_requested:
  assumes "\<forall>t p. mkdir_result env t p = None"
  shows "attempts env d delay urls tr = Inr (oks, tr') \<Longrightarrow>
         requested tr' = requested tr @ map str_strip urls"
proof (induction urls arbitrary: tr oks)
  case Nil
  then show ?case by simp
next
  case (Cons u urls)
  from Cons.prems obtain ok tr1 tr2 oks'
    where f: "download_pdf env tr (str_strip u) d None = (Inr ok, tr1)"
      and p: "pause env delay tr1 = Inr tr2"
      and r: "attempts env d delay urls tr2 = Inr (oks', tr')"
    by (auto split: prod.splits sum.splits)
  from f have "requested tr1 = requested tr @ [str_strip u]"
    using download_pdf_requested [of env tr d "str_strip u" None] assms by simp
  with pause_gap [OF p] have "requested tr2 = requested tr @ [str_strip u]"
    by (simp add: gap_def)
  with Cons.IH [OF r] show ?case
    by simp
qed

lemma started_0 [simp]: "started tr delay segs 0 = tr"
  by (simp add: started_def)

lemma started_Cons_Suc [simp]:
  "started tr delay (seg # segs) (Suc i) = started (tr @ seg @ gap delay) delay segs i"
  by (simp add: started_def)

lemma attempts_segments:
  "attempts env d delay urls tr = Inr (oks, tr') \<Longrightarrow>
   \<exists>segs. length segs = length urls \<and> tr' = started tr delay segs (length urls)
     \<and> (\<forall>i<length urls.
           download_pdf env (started tr delay segs i) (str_strip (urls ! i)) d None
             = (Inr (oks ! i), started tr delay segs i @ segs ! i)
           \<and> pause env delay (started tr delay segs i @ segs ! i)
             = Inr (started tr delay segs (Suc i)))
     \<and> (\<forall>seg\<in>set segs. sleeps seg = [])"
proof (induction urls arbitrary: tr oks)
  case Nil
  then show ?case by simp
next
  case (Cons u urls)
  from Cons.prems obtain ok tr1 tr2 oks'
    where f: "download_pdf env tr (str_strip u) d None = (Inr ok, tr1)"
      and p: "pause env delay tr1 = Inr tr2"
      and r: "attempts env d delay urls tr2 = Inr (oks', tr')"
      and o: "oks = ok # oks'"
    by (auto split: prod.splits sum.splits)
  from f obtain seg where seg: "tr1 = tr @ seg" and quiet: "sleeps seg = []"
    by (rule download_pdf_segment)
  from pause_gap [OF p] seg have tr2: "tr2 = tr @ seg @ gap delay"
    by simp
  from Cons.IH [OF r] obtain segs
    where len: "length segs = length urls"
      and fin: "tr' = started tr2 delay segs (length urls)"
      and each: "\<forall>i<length urls.
           download_pdf env (started tr2 delay segs i) (str_strip (urls ! i)) d None
             = (Inr (oks' ! i), started tr2 delay segs i @ segs ! i)
           \<and> pause env delay (started tr2 delay segs i @ segs ! i)
             = Inr (started tr2 delay segs (Suc i))"
      and quiets: "\<forall>seg\<in>set segs. sleeps seg = []"
    by blast
  have first: "download_pdf env tr (str_strip u) d None = (Inr ok, tr @ seg)"
    using f seg by simp
  have first_pause: "pause env delay (tr @ seg) = Inr (tr @ seg @ gap delay)"
    using p seg tr2 by simp
  have "length (seg # segs) = length (u # urls)"
    using len by simp
  moreover have "tr' = started tr delay (seg # segs) (length (u # urls))"
    using fin tr2 by simp
  moreover have "\<forall>i<length (u # urls).
           download_pdf env (started tr delay (seg # segs) i) (str_strip ((u # urls) ! i)) d None
             = (Inr (oks ! i), started tr delay (seg # segs) i @ (seg # segs) ! i)
           \<and> pause env delay (started tr delay (seg # segs) i @ (seg # segs) ! i)
             = Inr (started tr delay (seg # segs) (Suc i))"
    using first first_pause each o tr2
    by (simp add: All_less_Suc2 started_def)
  moreover have "\<forall>s\<in>set (seg # segs). sleeps s = []"
    using quiet quiets by simp
  ultimately show ?case by blast
qed

lemma two_urls_run:
  "download_pdfs_from_list env_ab [] two_urls ''out'' 1 = Inr two_urls_result"
  by code_simp


lemma warn_status [simp]:
  "warn_content_type env url (r \<lparr> status_code := s \<rparr>) tr = warn_content_type env url r tr"
  by (simp add: warn_content_type_def content_type_of_def)

lemma derive_status [simp]:
  "derive_filename env tr url (r \<lparr> status_code := s \<rparr>) fn = derive_filename env tr url r fn"
  by (simp add: derive_filename_def from_header_def)

lemma resolve_status [simp]:
  "resolve_filename env tr url (r \<lparr> status_code := s \<rparr>) fn = resolve_filename env tr url r fn"
  by (simp add: resolve_filename_def cong: option.case_cong sum.case_cong)

lemma receive_status [simp]:
  "receive env p (r \<lparr> status_code := s \<rparr>) tr = receive env p r tr"
  by (simp add: receive_def cong: option.case_cong prod.case_cong)

lemma save_body_status [simp]:
  "save_body env d name (r \<lparr> status_code := s \<rparr>) tr = save_body env d name r tr"
  by (simp add: save_body_def cong: option.case_cong prod.case_cong)

lemma after_response_status:
  "after_response env url d fn (r \<lparr> status_code := s \<rparr>) tr = after_response env url d fn r tr"
  by (simp add: after_response_def cong: option.case_cong prod.case_cong sum.case_cong)

section \<open>The fetcher and its outcome\<close>




text \<open>
  C4, as the code has it. If creating the target directory fails, \<open>download_pdf\<close>
  makes no request; the failure goes to the handler for unexpected errors, which prints
  \<open>Unexpected error downloading <url>: <text of the error>\<close> and returns \<open>False\<close>, as
  for every other exception that is not a \<open>RequestException\<close> (if that \<open>print\<close> raises,
  its exception leaves the function). There is no reason of its own for a directory
  error.
\<close>

theorem mkdir_failure_unexpected:
  assumes "mkdir_result env tr d = Some msg"
  shows "download_pdf env tr url d fn
           = (case print_result env (tr @ [Mkdir d])
                     (''Unexpected error downloading '' @ url @ '': '' @ msg) of
                None \<Rightarrow> Inr False
              | Some m \<Rightarrow> Inl (OtherException m),
              tr @ [Mkdir d, Print (''Unexpected error downloading '' @ url @ '': '' @ msg)])"
  using assms
  by (simp add: download_pdf_def download_pdf_try_def print_line_def report_def
           split: option.splits)

theorem mkdir_failure_unexpected_witness:
  "download_pdf env_no_mkdir [Sleep 1] ''https://x/b.pdf'' ''out'' (Some ''b.pdf'')
     = (Inr False, [Sleep 1, Mkdir ''out'',
          Print (''Unexpected error downloading https://x/b.pdf: '' @ errno13)])"
  using mkdir_failure_unexpected [of env_no_mkdir "[Sleep 1]" "''out''" errno13
      "''https://x/b.pdf''" "Some ''b.pdf''"]
  by (simp add: env_no_mkdir_def env_pdf_def serving_def)

text \<open>
  The claim as stated fails: where the directory cannot be made, the outcome is \<open>False\<close>
  and the line printed is the one of the handler for unexpected errors.
\<close>

theorem directory_error_counterexample:
  "download_pdf env_no_mkdir [] ''https://x/a.pdf'' ''out'' None
     = (Inr False, [Mkdir ''out'',
          Print (''Unexpected error downloading https://x/a.pdf: [Errno 13] Permission denied: ''
                 @ [CHR 0x27] @ ''out'' @ [CHR 0x27])])"
  by code_simp

text \<open>
  C5, as the code has it. For every response with a status from 400 to 599,
  \<open>download_pdf\<close> prints \<open>Error downloading <url>:\<close> with the status, the reason phrase
  and the URL of the response, writes nothing and returns \<open>False\<close>; if that \<open>print\<close>
  raises, its exception leaves the function (and the batch driver, which has no
  handler). A response with any other status, the ones outside 200 to 299 included, is
  processed exactly as the same response with status 200 is.
\<close>

theorem http_error_status_failure:
  assumes "mkdir_result env tr d = None"
    and "get_result env (tr @ [Mkdir d]) url = Inr r"
  shows "(400 \<le> status_code r \<and> status_code r < 600 \<longrightarrow>
            download_pdf env tr url d fn
              = (case print_result env (tr @ [Mkdir d, HttpGet url])
                        (''Error downloading '' @ url @ '': '' @ str_int (status_code r)
                         @ (if status_code r < 500 then '' Client Error: '' else '' Server Error: '')
                         @ reason r @ '' for url: '' @ resp_url r) of
                   None \<Rightarrow> Inr False
                 | Some m \<Rightarrow> Inl (OtherException m),
                 tr @ [Mkdir d, HttpGet url,
                       Print (''Error downloading '' @ url @ '': '' @ str_int (status_code r)
                         @ (if status_code r < 500 then '' Client Error: '' else '' Server Error: '')
                         @ reason r @ '' for url: '' @ resp_url r)]))
         \<and> (\<not> (400 \<le> status_code r \<and> status_code r < 600) \<longrightarrow>
              download_pdf_try env tr url d fn
                = after_response env url d fn r (tr @ [Mkdir d, HttpGet url])
              \<and> after_response env url d fn r tr'
                = after_response env url d fn (r \<lparr> status_code := 200 \<rparr>) tr')"
  using assms
  by (auto simp: download_pdf_def download_pdf_try_def raise_for_status_def print_line_def
                 report_def after_response_status
           split: option.splits)

theorem http_error_status_failure_witness:
  "download_pdf env_not_found [] ''https://x/b.pdf'' ''out'' None
     = (Inr False, [Mkdir ''out'', HttpGet ''https://x/b.pdf'',
          Print ''Error downloading https://x/b.pdf: 404 Client Error: Not Found for url: https://x/a.pdf''])"
proof -
  have str: "str_int 404 = ''404''"
    by code_simp
  have get: "get_result env_not_found ([] @ [Mkdir ''out'']) ''https://x/b.pdf''
               = Inr (pdf_response \<lparr> status_code := 404, reason := ''Not Found'' \<rparr>)"
    by (simp add: env_not_found_def serving_def)
  have mk: "mkdir_result env_not_found [] ''out'' = None"
    by (simp add: env_not_found_def serving_def)
  have p: "print_result env_not_found t l = None" for t l
    by (simp add: env_not_found_def serving_def)
  show ?thesis
    using http_error_status_failure [OF mk get, of None "[]"] str p
    by (simp add: pdf_response_def)
qed

text \<open>
  The claim as stated fails: a response with status 304 is not in 200 to 299, and the
  fetch returns \<open>True\<close>.
\<close>

theorem non_2xx_counterexample:
  "fst (download_pdf env_not_modified [] ''https://x/a.pdf'' ''out'' None) = Inr True"
  by code_simp

section \<open>The name of the saved file\<close>

text \<open>
  C3, as the code has it. With no explicit filename (none, or the empty string) the
  candidate is the filename parsed from the \<open>Content-Disposition\<close> header if there is
  one, else the percent-decoded last path segment of the URL. A candidate that ends in
  \<open>.pdf\<close> is the resolved name; any other candidate, an empty one included, is replaced
  by \<open>document_<unix time>.pdf\<close>. The suffix \<open>.pdf\<close> is appended only to an explicit
  filename that lacks it.
\<close>

theorem filename_resolution:
  "(falsy filename \<longrightarrow>
      resolve_filename env tr url r filename =
        (case header_name r of
           Some name \<Rightarrow> Inr (if endswith name ''.pdf'' then name else synthesized env tr)
         | None \<Rightarrow>
             (case urlparse_path env url of
                Inl e \<Rightarrow> Inl e
              | Inr path \<Rightarrow>
                  Inr (if endswith (unquote env (basename path)) ''.pdf''
                       then unquote env (basename path) else synthesized env tr))))
   \<and> (name \<noteq> [] \<longrightarrow>
        resolve_filename env tr url r (Some name)
          = Inr (if endswith name ''.pdf'' then name else name @ ''.pdf''))"
  by (cases "header_name r")
     (simp_all add: resolve_derived derive_by_header derive_by_url resolve_explicit)

theorem filename_resolution_witness:
  "resolve_filename env_pdf [] ''https://x/docs/a.pdf'' pdf_response None = Inr ''a.pdf''
   \<and> resolve_filename env_pdf [] ''https://x/docs/a.pdf'' extensionless_header (Some [])
       = Inr ''document_1700000000.pdf''
   \<and> resolve_filename env_pdf [] ''https://x/docs/a.pdf'' pdf_response (Some ''annual'')
       = Inr ''annual.pdf''"
proof -
  have h1: "header_name pdf_response = None"
    by (simp add: header_name_def pdf_response_def)
  have h2: "header_name extensionless_header = Some ''report''"
    by code_simp
  have p: "urlparse_path env_pdf ''https://x/docs/a.pdf'' = Inr ''/docs/a.pdf''"
    by code_simp
  have u: "unquote env_pdf (basename ''/docs/a.pdf'') = ''a.pdf''"
    by code_simp
  have e1: "endswith ''a.pdf'' ''.pdf''" and e2: "\<not> endswith ''report'' ''.pdf''"
    and e3: "\<not> endswith ''annual'' ''.pdf''"
    by code_simp+
  have t: "synthesized env_pdf [] = ''document_1700000000.pdf''"
    by (rule sample_time_name)
  show ?thesis
    using filename_resolution [of None env_pdf "[]" "''https://x/docs/a.pdf''" pdf_response "''annual''"]
      filename_resolution [of "Some []" env_pdf "[]" "''https://x/docs/a.pdf''" extensionless_header "''annual''"]
      h1 h2 p u e1 e2 e3 t
    by (simp add: falsy_def)
qed

text \<open>
  The claim as stated fails: a last path segment \<open>report\<close> does not become
  \<open>report.pdf\<close>, and a header name \<open>report\<close> neither becomes \<open>report.pdf\<close> nor gives
  way to the URL's \<open>a.pdf\<close>; both are replaced by the synthesized name.
\<close>

theorem resolution_counterexample:
  "resolve_filename env_pdf [] ''https://x/report'' pdf_response None
     = Inr ''document_1700000000.pdf''
   \<and> resolve_filename env_pdf [] ''https://x/a.pdf'' extensionless_header None
     = Inr ''document_1700000000.pdf''"
proof -
  have f: "falsy None"
    by (simp add: falsy_def)
  have h1: "header_name pdf_response = None"
    by (simp add: header_name_def pdf_response_def)
  have p: "urlparse_path env_pdf ''https://x/report'' = Inr ''/report''"
    by code_simp
  have u: "unquote env_pdf (basename ''/report'') = ''report''"
    by code_simp
  have h2: "header_name extensionless_header = Some ''report''"
    by code_simp
  have e: "\<not> endswith ''report'' ''.pdf''"
    by code_simp
  show ?thesis
    using f h1 p u h2 e
    by (simp add: resolve_derived derive_by_url derive_by_header sample_time_name)
qed

text \<open>
  C6, as the code has it. With no explicit filename and no \<open>Content-Disposition\<close>
  header, a URL whose path component ends in \<open>/report.pdf\<close> resolves to exactly
  \<open>report.pdf\<close>. What counts is the path that \<open>urlparse\<close> gives, not the end of the
  URL string.
\<close>

theorem report_pdf_from_path:
  assumes "falsy filename"
    and "headers r ''content-disposition'' = None"
    and "urlparse_path env url = Inr path"
    and "endswith path ''/report.pdf''"
  shows "resolve_filename env tr url r filename = Inr ''report.pdf''"
proof -
  have b: "basename path = ''report.pdf''"
    by (rule basename_of_suffix [OF assms(4)]) simp
  have e: "endswith ''report.pdf'' ''.pdf''"
    by (simp add: endswith_def)
  have h: "header_name r = None"
    using assms(2) by (simp add: header_name_def)
  show ?thesis
    using assms(1,3) b e h by (simp add: resolve_derived derive_by_url unquote_def)
qed

theorem report_pdf_from_path_witness:
  "resolve_filename env_pdf [] ''https://x/files/2020/report.pdf'' pdf_response None
     = Inr ''report.pdf''"
proof -
  have f: "falsy None"
    by (simp add: falsy_def)
  have h: "headers pdf_response ''content-disposition'' = None"
    by (simp add: pdf_response_def)
  have p: "urlparse_path env_pdf ''https://x/files/2020/report.pdf'' = Inr ''/files/2020/report.pdf''"
    by code_simp
  have e: "endswith ''/files/2020/report.pdf'' ''/report.pdf''"
    by code_simp
  show ?thesis
    by (rule report_pdf_from_path [OF f h p e])
qed

text \<open>
  The claim as stated fails: a URL can end in \<open>/report.pdf\<close> inside its query string,
  and then the last path segment is something else.
\<close>

theorem url_suffix_counterexample:
  "endswith ''https://x/get?f=/report.pdf'' ''/report.pdf''
   \<and> headers pdf_response ''content-disposition'' = None
   \<and> resolve_filename env_pdf [] ''https://x/get?f=/report.pdf'' pdf_response None
       = Inr ''document_1700000000.pdf''"
proof -
  have s: "endswith ''https://x/get?f=/report.pdf'' ''/report.pdf''"
    by code_simp
  have f: "falsy None"
    by (simp add: falsy_def)
  have h: "headers pdf_response ''content-disposition'' = None"
    by (simp add: pdf_response_def)
  then have n: "header_name pdf_response = None"
    by (simp add: header_name_def)
  have p: "urlparse_path env_pdf ''https://x/get?f=/report.pdf'' = Inr ''/get''"
    by code_simp
  have u: "unquote env_pdf (basename ''/get'') = ''get''"
    by code_simp
  have e: "\<not> endswith ''get'' ''.pdf''"
    by code_simp
  show ?thesis
    using s f h n p u e
    by (simp add: resolve_derived derive_by_url sample_time_name)
qed

text \<open>
  C7. With no explicit filename and the response header
  \<open>Content-Disposition: attachment; filename="report_2020.pdf"\<close>, the resolved name is
  \<open>report_2020.pdf\<close> for every URL; and when the directory is made, the request is
  answered with that response, its status raises nothing, the warning (if any) is
  printed, the file is opened, the chunks are received and written, the file is closed
  and the success line is printed, the body is written to the file of that name in the output directory and
  the fetch returns \<open>True\<close>.
\<close>

theorem saved_under_header_name:
  assumes "falsy filename"
    and "headers r ''content-disposition'' = Some report_header"
  shows "resolve_filename env tr url r filename = Inr ''report_2020.pdf''
         \<and> (mkdir_result env tr d = None \<and> get_result env (tr @ [Mkdir d]) url = Inr r
              \<and> raise_for_status r = None
              \<and> warn_content_type env url r (tr @ [Mkdir d, HttpGet url]) = (None, tr1)
              \<and> open_result env tr1 (path_join d ''report_2020.pdf'') = None
              \<and> (\<forall>t c. write_result env t (path_join d ''report_2020.pdf'') c = None)
              \<and> stream_fault r = None
              \<and> close_result env
                    (tr1 @ OpenWrite (path_join d ''report_2020.pdf'')
                         # map (WriteChunk (path_join d ''report_2020.pdf''))
                             (filter (\<lambda>c. c \<noteq> []) (chunks r)))
                    (path_join d ''report_2020.pdf'') = None
              \<and> print_result env
                    (tr1 @ OpenWrite (path_join d ''report_2020.pdf'')
                         # map (WriteChunk (path_join d ''report_2020.pdf''))
                             (filter (\<lambda>c. c \<noteq> []) (chunks r))
                         @ [CloseFile (path_join d ''report_2020.pdf'')])
                    ''Successfully downloaded: report_2020.pdf'' = None
            \<longrightarrow> download_pdf env tr url d filename
                  = (Inr True,
                     tr1 @ OpenWrite (path_join d ''report_2020.pdf'')
                     # map (WriteChunk (path_join d ''report_2020.pdf''))
                         (filter (\<lambda>c. c \<noteq> []) (chunks r))
                     @ [CloseFile (path_join d ''report_2020.pdf''),
                        Print ''Successfully downloaded: report_2020.pdf'']))"
proof -
  have e: "endswith ''report_2020.pdf'' ''.pdf''"
    by code_simp
  have name: "resolve_filename env t url r filename = Inr ''report_2020.pdf''" for t
    using assms(1) report_header_name [OF assms(2)] e
    by (simp add: resolve_derived derive_by_header)
  show ?thesis
    by (auto simp: name download_pdf_def download_pdf_try_def after_response_def
                   save_body_def receive_def Let_def write_chunks_ok print_line_def)
qed

theorem saved_under_header_name_witness:
  "download_pdf env_report_header [] ''https://x/download?id=7'' ''out'' None
     = (Inr True,
        [Mkdir ''out'', HttpGet ''https://x/download?id=7'',
         Print ''Warning: URL https://x/download?id=7 might not be a PDF (Content-Type: )'',
         OpenWrite ''out/report_2020.pdf'',
         WriteChunk ''out/report_2020.pdf'' ''%PDF-1.4'',
         WriteChunk ''out/report_2020.pdf'' ''%%EOF'',
         CloseFile ''out/report_2020.pdf'',
         Print ''Successfully downloaded: report_2020.pdf''])"
proof -
  let ?r = "pdf_response \<lparr> headers := [''content-disposition'' \<mapsto> report_header] \<rparr>"
  let ?tr1 = "[Mkdir ''out'', HttpGet ''https://x/download?id=7'',
      Print ''Warning: URL https://x/download?id=7 might not be a PDF (Content-Type: )'']"
  have f: "falsy None"
    by (simp add: falsy_def)
  have h: "headers ?r ''content-disposition'' = Some report_header"
    by simp
  have w: "warn_content_type env_report_header ''https://x/download?id=7'' ?r
             ([] @ [Mkdir ''out'', HttpGet ''https://x/download?id=7'']) = (None, ?tr1)"
    by code_simp
  have j: "path_join ''out'' ''report_2020.pdf'' = ''out/report_2020.pdf''"
    by code_simp
  have s: "raise_for_status ?r = None"
    by (simp add: raise_for_status_def pdf_response_def)
  show ?thesis
    using saved_under_header_name [OF f h, of env_report_header "[]" "''https://x/download?id=7''"
        "''out''" ?tr1] w j s
    by (simp add: env_report_header_def serving_def pdf_response_def)
qed

section \<open>The batch driver\<close>

text \<open>
  C1, as the code has it. For every input sequence on which the batch call returns, the
  lengths of the two output sequences sum to the length of the input, and every
  occurrence of a URL in the input is in exactly one of the two: together they hold the
  input's elements with their multiplicities. Where no URL is repeated in the input, no
  URL is in both outputs.
\<close>

theorem batch_partition:
  assumes "download_pdfs_from_list env tr urls d delay = Inr b"
  shows "length (successful b) + length (failed b) = length urls
         \<and> mset (successful b) + mset (failed b) = mset urls
         \<and> (distinct urls \<longrightarrow> set (successful b) \<inter> set (failed b) = {})"
proof -
  from batch_as_attempts [OF assms] obtain oks
    where a: "attempts env d delay urls tr = Inr (oks, trace b)"
      and s: "successful b = chosen True urls oks" and f: "failed b = chosen False urls oks"
    by blast
  from length_attempts [OF a] have n: "length oks = length urls" .
  have len: "length (successful b) + length (failed b) = length urls"
    using length_chosen [OF n] s f by simp
  have ms: "mset (successful b) + mset (failed b) = mset urls"
    using mset_chosen [OF n] s f by simp
  have dj: "set (successful b) \<inter> set (failed b) = {}" if "distinct urls"
  proof -
    from ms have "mset (successful b @ failed b) = mset urls" by simp
    with that have "distinct (successful b @ failed b)" by (metis mset_eq_imp_distinct_iff)
    then show ?thesis by simp
  qed
  show ?thesis
    using len ms dj by simp
qed

theorem batch_partition_witness:
  "download_pdfs_from_list env_ab [] two_urls ''out'' 1 = Inr two_urls_result
   \<and> length (successful two_urls_result) + length (failed two_urls_result) = length two_urls
   \<and> mset (successful two_urls_result) + mset (failed two_urls_result) = mset two_urls
   \<and> distinct two_urls
   \<and> set (successful two_urls_result) \<inter> set (failed two_urls_result) = {}"
proof -
  have d: "distinct two_urls"
    by (simp add: two_urls_def)
  show ?thesis
    using batch_partition [OF two_urls_run] two_urls_run d
    by simp
qed

text \<open>
  The claim as stated fails for a URL given twice: when the first attempt times out and
  the second succeeds, the URL is in both output sequences.
\<close>

theorem repeated_url_counterexample:
  "download_pdfs_from_list env_flaky [] [''https://x/a.pdf'', ''https://x/a.pdf''] ''out'' 0 =
     Inr \<lparr> successful = [''https://x/a.pdf''], failed = [''https://x/a.pdf''],
           trace = [Mkdir ''out'', HttpGet ''https://x/a.pdf'',
                    Print ''Error downloading https://x/a.pdf: Read timed out.'',
                    Mkdir ''out'', HttpGet ''https://x/a.pdf'', OpenWrite ''out/a.pdf'',
                    WriteChunk ''out/a.pdf'' ''%PDF-1.4'', WriteChunk ''out/a.pdf'' ''%%EOF'',
                    CloseFile ''out/a.pdf'', Print ''Successfully downloaded: a.pdf''] \<rparr>"
  by code_simp

text \<open>
  C8. Every batch call that returns is the sequence of attempts: the fetcher was called
  on the trimmed URLs one after the other in input order (the requests issued are the
  trimmed URLs in that order, where the directory can be made), and each of the two
  output sequences is a subsequence of the input, so the relative input order is kept.
\<close>

theorem batch_in_input_order:
  assumes "download_pdfs_from_list env tr urls d delay = Inr b"
  shows "\<exists>oks. attempts env d delay urls tr = Inr (oks, trace b)
           \<and> successful b = chosen True urls oks
           \<and> failed b = chosen False urls oks
           \<and> subseq (successful b) urls \<and> subseq (failed b) urls
           \<and> ((\<forall>t p. mkdir_result env t p = None)
                \<longrightarrow> requested (trace b) = requested tr @ map str_strip urls)"
proof -
  from batch_as_attempts [OF assms] obtain oks
    where a: "attempts env d delay urls tr = Inr (oks, trace b)"
      and s: "successful b = chosen True urls oks" and f: "failed b = chosen False urls oks"
    by blast
  have "requested (trace b) = requested tr @ map str_strip urls"
    if "\<forall>t p. mkdir_result env t p = None"
    using attempts_requested [OF that a] .
  with a s f show ?thesis
    by (auto simp: subseq_chosen)
qed

theorem batch_in_input_order_witness:
  "download_pdfs_from_list env_ab [] two_urls ''out'' 1 = Inr two_urls_result
   \<and> subseq (successful two_urls_result) two_urls
   \<and> subseq (failed two_urls_result) two_urls
   \<and> requested (trace two_urls_result) = [''https://x/a.pdf'', ''https://x/b.pdf'']"
proof -
  have mk: "\<forall>t p. mkdir_result env_ab t p = None"
    by (simp add: env_ab_def serving_def)
  have st: "map str_strip two_urls = [''https://x/a.pdf'', ''https://x/b.pdf'']"
    by code_simp
  show ?thesis
    using batch_in_input_order [OF two_urls_run] two_urls_run mk st
    by auto
qed

text \<open>
  C9. The events of every batch call that returns are, URL after URL in input order, the
  events of the attempt on that URL, which hold no sleep, followed by one sleep of the
  delay when the delay is positive and by nothing when it is zero or less. So with a
  positive delay there is a sleep right after every attempt, the last one included, and
  with a delay of zero or less there is none.
\<close>

theorem batch_sleeps_after_every_attempt:
  assumes "download_pdfs_from_list env tr urls d delay = Inr b"
  shows "\<exists>segs. length segs = length urls
           \<and> trace b = started tr delay segs (length urls)
           \<and> (\<forall>i<length urls.
                 snd (download_pdf env (started tr delay segs i) (str_strip (urls ! i)) d None)
                   = started tr delay segs i @ segs ! i
                 \<and> started tr delay segs (Suc i)
                   = started tr delay segs i @ segs ! i @ gap delay)
           \<and> (\<forall>seg\<in>set segs. sleeps seg = [])
           \<and> sleeps (trace b)
               = sleeps tr @ (if delay > 0 then replicate (length urls) delay else [])"
proof -
  from batch_as_attempts [OF assms] obtain oks
    where a: "attempts env d delay urls tr = Inr (oks, trace b)"
    by blast
  from attempts_segments [OF a] obtain segs
    where len: "length segs = length urls"
      and fin: "trace b = started tr delay segs (length urls)"
      and each: "\<forall>i<length urls.
           download_pdf env (started tr delay segs i) (str_strip (urls ! i)) d None
             = (Inr (oks ! i), started tr delay segs i @ segs ! i)
           \<and> pause env delay (started tr delay segs i @ segs ! i)
             = Inr (started tr delay segs (Suc i))"
      and quiet: "\<forall>seg\<in>set segs. sleeps seg = []"
    by blast
  have "\<forall>i<length urls.
          snd (download_pdf env (started tr delay segs i) (str_strip (urls ! i)) d None)
            = started tr delay segs i @ segs ! i
          \<and> started tr delay segs (Suc i) = started tr delay segs i @ segs ! i @ gap delay"
  proof (intro allI impI)
    fix i assume i: "i < length urls"
    with each have
      f: "download_pdf env (started tr delay segs i) (str_strip (urls ! i)) d None
             = (Inr (oks ! i), started tr delay segs i @ segs ! i)"
      and p: "pause env delay (started tr delay segs i @ segs ! i)
             = Inr (started tr delay segs (Suc i))"
      by blast+
    from pause_gap [OF p] f
    show "snd (download_pdf env (started tr delay segs i) (str_strip (urls ! i)) d None)
            = started tr delay segs i @ segs ! i
          \<and> started tr delay segs (Suc i) = started tr delay segs i @ segs ! i @ gap delay"
      by simp
  qed
  with len fin quiet attempts_sleeps [OF a] show ?thesis
    by blast
qed

theorem batch_sleeps_after_every_attempt_witness:
  "download_pdfs_from_list env_ab [] two_urls ''out'' 1 = Inr two_urls_result
   \<and> sleeps (trace two_urls_result) = [1, 1]
   \<and> last (trace two_urls_result) = Sleep 1"
proof -
  from batch_sleeps_after_every_attempt [OF two_urls_run]
  have "sleeps (trace two_urls_result)
          = sleeps [] @ (if (1::real) > 0 then replicate (length two_urls) 1 else [])"
    by blast
  then have "sleeps (trace two_urls_result) = [1, 1]"
    by (simp add: two_urls_def numeral_2_eq_2)
  moreover have "last (trace two_urls_result) = Sleep 1"
    by (simp add: two_urls_result_def)
  ultimately show ?thesis
    using two_urls_run by simp
qed



end
